theory Spec2Isabelle
  imports
    Complex_Main
    "HOL-Library.Char_ord"
    "HOL-Library.List_Lexorder"
    "HOL-Library.Product_Lexorder"
begin

section \<open>The marketing-campaign dashboard (app.py): data model\<close>

text \<open>
  The dashboard reads one table, filters it by three sidebar selections and shows five
  aggregates of the filtered table: the KPIs, the funnel, the daily purchases, the
  per-campaign table and the top locations. A table is the list of its rows, in file
  order; a column is a field of the row.
\<close>

subsection \<open>Rows\<close>

text \<open>
  A calendar date is (year, month, day), compared lexicographically, as
  \<^verbatim>\<open>datetime.date\<close> values are. A timestamp is a date and the seconds since midnight;
  \<^verbatim>\<open>.dt.date\<close> keeps the date.
\<close>

type_synonym date = "int \<times> nat \<times> nat"

record timestamp_t =
  ts_date :: date
  ts_seconds :: nat

definition dt_date :: "timestamp_t \<Rightarrow> date" where
  "dt_date t = ts_date t"

text \<open>
  Modelled from the spec: the columns of \<^verbatim>\<open>ecommerce_campaign_data.csv\<close> and their types.
  The file is read by \<^verbatim>\<open>load_data\<close> and is not part of the sources; the data model gives
  the identifier and the three dimensions as strings, the timestamp,
  \<^verbatim>\<open>clicked_ad\<close> and \<^verbatim>\<open>purchased\<close> as 0/1 indicators, \<^verbatim>\<open>products_viewed\<close> and
  \<^verbatim>\<open>added_to_cart\<close> as non-negative counts, and \<^verbatim>\<open>purchase_amount\<close> as a number.

  \<^verbatim>\<open>read_csv\<close> reads a blank cell (and NA, None, null) as a missing value, and the program
  does nothing to exclude such rows. A cell of the identifier, of a dimension or of the
  timestamp is therefore optional: \<open>None\<close> is the missing value (NaN, NaT). A missing
  cell of a numeric column is skipped by \<^verbatim>\<open>sum()\<close> and fails \<^verbatim>\<open>> 0\<close>; these are the only
  uses the program makes of the numeric columns, a cell holding 0 behaves the same way in
  both, and the missing numeric cell is modelled as 0.

  Indicators and counts are natural numbers here (any natural number, not only 0 and 1,
  and unbounded: a sum of 0/1 cells does not reach the 64-bit limit), amounts are
  rationals: arithmetic is exact, the rounding of binary floating point is not modelled.
\<close>

record event =
  user_id :: "string option"
  timestamp :: "timestamp_t option"
  campaign_id :: "string option"
  device_type :: "string option"
  location :: "string option"
  clicked_ad :: nat
  products_viewed :: nat
  added_to_cart :: nat
  purchased :: nat
  purchase_amount :: rat

subsection \<open>Frames\<close>

text \<open>
  What \<^verbatim>\<open>load_data\<close> returns, and every selection of it. \<^verbatim>\<open>parse_dates\<close> turns the
  timestamp column of a file with data rows into datetimes, and a selection of rows keeps
  the type of the column, also the selection of no row: that is \<open>Frame df\<close>. A file that
  has the header line and no data row gives a frame without rows whose columns all have
  the type \<^verbatim>\<open>object\<close>: that is \<open>Unparsed\<close>. The two frames without rows differ in the
  \<^verbatim>\<open>.dt\<close> accessor, which exists on a datetime column only.
\<close>

datatype frame = Frame "event list" | Unparsed

fun rows_of :: "frame \<Rightarrow> event list" where
  "rows_of (Frame df) = df"
| "rows_of Unparsed = []"

datatype py_error = AttributeError

subsection \<open>Numbers that a division produces\<close>

text \<open>
  \<^verbatim>\<open>/\<close> on numpy scalars and on pandas columns does not raise on a zero divisor: it
  yields an infinity or NaN. HOL's \<open>x / 0 = 0\<close> would hide that, so a quotient is a value
  of \<open>fnum\<close> and the zero divisor is a branch of \<open>fdiv\<close>.
\<close>

datatype fnum = Fin rat | PosInf | NegInf | NaN

definition fdiv :: "rat \<Rightarrow> rat \<Rightarrow> fnum" where
  "fdiv a b =
     (if b = 0 then (if a = 0 then NaN else if 0 < a then PosInf else NegInf)
      else Fin (a / b))"

text \<open>Multiplication of a quotient by a finite number (here always the constant 100).\<close>

fun fmul :: "fnum \<Rightarrow> rat \<Rightarrow> fnum" where
  "fmul (Fin x) c = Fin (x * c)"
| "fmul PosInf c = (if 0 < c then PosInf else if c < 0 then NegInf else NaN)"
| "fmul NegInf c = (if 0 < c then NegInf else if c < 0 then PosInf else NaN)"
| "fmul NaN c = NaN"

fun is_finite :: "fnum \<Rightarrow> bool" where
  "is_finite (Fin x) = True"
| "is_finite PosInf = False"
| "is_finite NegInf = False"
| "is_finite NaN = False"

subsection \<open>Column operations\<close>

text \<open>\<^verbatim>\<open>df[col].sum()\<close>: the sum of a column; 0 on the empty table.\<close>

definition col_sum :: "('r \<Rightarrow> 'a::comm_monoid_add) \<Rightarrow> 'r list \<Rightarrow> 'a" where
  "col_sum col rows = sum_list (map col rows)"

text \<open>\<^verbatim>\<open>(df[col] > 0).sum()\<close>: the number of rows whose cell is positive.\<close>

definition count_positive :: "('r \<Rightarrow> nat) \<Rightarrow> 'r list \<Rightarrow> nat" where
  "count_positive col rows = length (filter (\<lambda>r. 0 < col r) rows)"

text \<open>
  \<^verbatim>\<open>("user_id", "count")\<close>: the number of cells of a column that are not missing. It is
  not the number of rows: a row whose cell is missing is not counted.
\<close>

definition col_count :: "('r \<Rightarrow> 'a option) \<Rightarrow> 'r list \<Rightarrow> nat" where
  "col_count col rows = length (filter (\<lambda>r. col r \<noteq> None) rows)"

text \<open>\<^verbatim>\<open>Series.replace(a, b)\<close> on one cell.\<close>

definition replace_val :: "nat \<Rightarrow> nat \<Rightarrow> nat \<Rightarrow> nat" where
  "replace_val a b x = (if x = a then b else x)"

text \<open>The values of a column that are not missing, in table order.\<close>

fun dropna :: "'a option list \<Rightarrow> 'a list" where
  "dropna [] = []"
| "dropna (None # xs) = dropna xs"
| "dropna (Some x # xs) = x # dropna xs"

text \<open>
  \<^verbatim>\<open>df.groupby(key)\<close>: one group per distinct key that is not missing, the groups in
  ascending key order (pandas sorts group keys by default), each group holding its rows in
  table order. A row whose key cell is missing is in no group (\<^verbatim>\<open>dropna=True\<close> is the
  default).
\<close>

definition groupby :: "('r \<Rightarrow> 'k::linorder option) \<Rightarrow> 'r list \<Rightarrow> ('k \<times> 'r list) list" where
  "groupby key rows =
     map (\<lambda>k. (k, filter (\<lambda>r. key r = Some k) rows)) (sort (remdups (dropna (map key rows))))"

section \<open>Sidebar filters (line 20)\<close>

text \<open>
  A selection is a list of cell values; the sidebar offers the values of the column, the
  missing value among them when the column has it, and \<^verbatim>\<open>isin\<close> finds a missing cell in a
  selection that holds the missing value.
\<close>

definition isin :: "'a \<Rightarrow> 'a list \<Rightarrow> bool" where
  "isin x vs = (x \<in> set vs)"

definition filter_stage ::
  "event list \<Rightarrow> string option list \<Rightarrow> string option list \<Rightarrow> string option list \<Rightarrow> event list"
where
  "filter_stage df campaign device loc =
     filter (\<lambda>r. isin (campaign_id r) campaign \<and> isin (device_type r) device
                 \<and> isin (location r) loc) df"

text \<open>Selecting rows keeps the types of the columns.\<close>

fun filter_frame ::
  "frame \<Rightarrow> string option list \<Rightarrow> string option list \<Rightarrow> string option list \<Rightarrow> frame"
where
  "filter_frame (Frame df) campaign device loc = Frame (filter_stage df campaign device loc)"
| "filter_frame Unparsed campaign device loc = Unparsed"

section \<open>Key performance indicators (lines 31-38)\<close>

record kpi_set =
  total_users :: nat
  ctr :: fnum
  conversion_rate :: fnum
  aov :: fnum

definition kpis :: "event list \<Rightarrow> kpi_set" where
  "kpis df =
     (let n = length df;
          clicked = col_sum clicked_ad df;
          bought = col_sum purchased df;
          revenue = col_sum purchase_amount df
      in \<lparr> total_users = n,
           ctr = (if n \<noteq> 0 then fmul (fdiv (of_nat clicked) (of_nat n)) 100 else Fin 0),
           conversion_rate = (if n \<noteq> 0 then fmul (fdiv (of_nat bought) (of_nat n)) 100 else Fin 0),
           aov = (if bought \<noteq> 0 then fdiv revenue (of_nat bought) else Fin 0) \<rparr>)"

section \<open>Funnel (lines 57-63)\<close>

text \<open>
  The dictionary keeps its four entries in the order they are written, and
  \<^verbatim>\<open>list(funnel.items())\<close> lists them in that order.
\<close>

definition funnel :: "event list \<Rightarrow> (string \<times> nat) list" where
  "funnel df =
     [(''Clicked Ad'', col_sum clicked_ad df),
      (''Viewed Product'', count_positive products_viewed df),
      (''Added to Cart'', count_positive added_to_cart df),
      (''Purchased'', col_sum purchased df)]"

section \<open>Daily purchases (lines 77-78)\<close>

text \<open>
  The cell of the new column \<^verbatim>\<open>date\<close> in a row of a frame with a datetime column: the
  date of the timestamp, missing where the timestamp is missing.
\<close>

definition date_col :: "event \<Rightarrow> date option" where
  "date_col r = map_option dt_date (timestamp r)"

text \<open>
  Line 77 reads \<^verbatim>\<open>df["timestamp"].dt\<close>. On a column that does not hold datetimes the
  accessor raises \<^verbatim>\<open>AttributeError\<close>, and the script ends there.
\<close>

fun daily :: "frame \<Rightarrow> py_error + (date \<times> nat) list" where
  "daily Unparsed = Inl AttributeError"
| "daily (Frame df) = Inr (map (\<lambda>(d, g). (d, col_sum purchased g)) (groupby date_col df))"

section \<open>Per-campaign table (lines 92-100)\<close>

record campaign_row =
  cp_campaign_id :: string
  users :: nat
  clicks :: nat
  purchases :: nat
  revenue :: rat
  ctr_pct :: fnum
  conversion_rate_pct :: fnum
  campaign_aov :: fnum

definition campaign_agg :: "string \<times> event list \<Rightarrow> campaign_row" where
  "campaign_agg kg =
     (let g = snd kg;
          u = col_count user_id g;
          c = col_sum clicked_ad g;
          p = col_sum purchased g;
          rev = col_sum purchase_amount g
      in \<lparr> cp_campaign_id = fst kg, users = u, clicks = c, purchases = p, revenue = rev,
           ctr_pct = fmul (fdiv (of_nat c) (of_nat u)) 100,
           conversion_rate_pct = fmul (fdiv (of_nat p) (of_nat u)) 100,
           campaign_aov = fdiv rev (of_nat (replace_val 0 1 p)) \<rparr>)"

definition campaign_perf :: "event list \<Rightarrow> campaign_row list" where
  "campaign_perf df = map campaign_agg (groupby campaign_id df)"

section \<open>Top locations (lines 168-175)\<close>

record location_row =
  loc_location :: string
  loc_users :: nat
  loc_purchases :: nat
  loc_conversion_rate_pct :: fnum

definition location_agg :: "string \<times> event list \<Rightarrow> location_row" where
  "location_agg kg =
     (let g = snd kg;
          u = col_count user_id g;
          p = col_sum purchased g
      in \<lparr> loc_location = fst kg, loc_users = u, loc_purchases = p,
           loc_conversion_rate_pct = fmul (fdiv (of_nat p) (of_nat u)) 100 \<rparr>)"

text \<open>The table after line 172, before it is sorted and cut.\<close>

definition loc_rollup :: "event list \<Rightarrow> location_row list" where
  "loc_rollup df = map location_agg (groupby location df)"

text \<open>
  \<^verbatim>\<open>sort_values(col, ascending=False)\<close>: the largest value first, NaN last. The sort key
  below orders \<open>PosInf\<close>, the finite values from large to small, \<open>NegInf\<close>, \<open>NaN\<close>.
  \<open>sort_key\<close> keeps rows of equal value in their former order; pandas promises no
  order among them, and nothing below depends on it.
\<close>

fun desc_key :: "fnum \<Rightarrow> nat \<times> rat" where
  "desc_key PosInf = (0, 0)"
| "desc_key (Fin x) = (1, - x)"
| "desc_key NegInf = (2, 0)"
| "desc_key NaN = (3, 0)"

definition sort_values_desc :: "('r \<Rightarrow> fnum) \<Rightarrow> 'r list \<Rightarrow> 'r list" where
  "sort_values_desc col rows = sort_key (\<lambda>r. desc_key (col r)) rows"

definition top_locations :: "nat \<Rightarrow> event list \<Rightarrow> location_row list" where
  "top_locations n df = take n (sort_values_desc loc_conversion_rate_pct (loc_rollup df))"

definition top_n :: nat where
  "top_n = 15"

definition loc_df :: "event list \<Rightarrow> location_row list" where
  "loc_df df = top_locations top_n df"

section \<open>The script, top to bottom\<close>

text \<open>
  What one run shows for a filtered frame. The KPIs and the funnel are shown first. The
  daily series comes next; when line 77 raises, the run ends and neither the series nor
  the two tables after it are produced.
\<close>

record shown =
  shown_kpis :: kpi_set
  shown_funnel :: "(string \<times> nat) list"
  shown_tables :: "py_error + ((date \<times> nat) list \<times> campaign_row list \<times> location_row list)"

definition dashboard :: "frame \<Rightarrow> shown" where
  "dashboard fr =
     (let df = rows_of fr
      in \<lparr> shown_kpis = kpis df,
           shown_funnel = funnel df,
           shown_tables =
             (case daily fr of
                Inl e \<Rightarrow> Inl e
              | Inr series \<Rightarrow> Inr (series, campaign_perf df, loc_df df)) \<rparr>)"

section \<open>Example tables\<close>

text \<open>
  Four kinds of rows: two buyers who clicked (amounts 50 and 30, on 1 January 2024),
  a visitor who clicked and bought nothing, and a visitor who did not click but put two
  items into the cart (both on 3 January 2024); and a third buyer on 3 January.
\<close>

definition ev_buy50 :: event where
  "ev_buy50 = \<lparr> user_id = Some ''u1'',
      timestamp = Some \<lparr> ts_date = (2024, 1, 1), ts_seconds = 36000 \<rparr>,
      campaign_id = Some ''C1'', device_type = Some ''mobile'', location = Some ''Dhaka'',
      clicked_ad = 1, products_viewed = 3, added_to_cart = 1, purchased = 1,
      purchase_amount = 50 \<rparr>"

definition ev_buy30 :: event where
  "ev_buy30 = \<lparr> user_id = Some ''u2'',
      timestamp = Some \<lparr> ts_date = (2024, 1, 1), ts_seconds = 72000 \<rparr>,
      campaign_id = Some ''C2'', device_type = Some ''desktop'', location = Some ''Sylhet'',
      clicked_ad = 1, products_viewed = 1, added_to_cart = 1, purchased = 1,
      purchase_amount = 30 \<rparr>"

definition ev_click :: event where
  "ev_click = \<lparr> user_id = Some ''u3'',
      timestamp = Some \<lparr> ts_date = (2024, 1, 3), ts_seconds = 100 \<rparr>,
      campaign_id = Some ''C1'', device_type = Some ''mobile'', location = Some ''Dhaka'',
      clicked_ad = 1, products_viewed = 2, added_to_cart = 0, purchased = 0,
      purchase_amount = 0 \<rparr>"

definition ev_cart :: event where
  "ev_cart = \<lparr> user_id = Some ''u4'',
      timestamp = Some \<lparr> ts_date = (2024, 1, 3), ts_seconds = 200 \<rparr>,
      campaign_id = Some ''C3'', device_type = Some ''tablet'', location = Some ''Khulna'',
      clicked_ad = 0, products_viewed = 0, added_to_cart = 2, purchased = 0,
      purchase_amount = 0 \<rparr>"

definition ev_buy20 :: event where
  "ev_buy20 = \<lparr> user_id = Some ''u1'',
      timestamp = Some \<lparr> ts_date = (2024, 1, 3), ts_seconds = 300 \<rparr>,
      campaign_id = Some ''C2'', device_type = Some ''mobile'', location = Some ''Dhaka'',
      clicked_ad = 1, products_viewed = 1, added_to_cart = 1, purchased = 1,
      purchase_amount = 20 \<rparr>"

text \<open>
  Two rows with a blank cell: a buyer of 10 whose \<^verbatim>\<open>user_id\<close> is blank, and a visitor
  whose \<^verbatim>\<open>campaign_id\<close>, \<^verbatim>\<open>location\<close> and \<^verbatim>\<open>timestamp\<close> are blank.
\<close>

definition ev_anon :: event where
  "ev_anon = \<lparr> user_id = None,
      timestamp = Some \<lparr> ts_date = (2024, 1, 5), ts_seconds = 0 \<rparr>,
      campaign_id = Some ''C4'', device_type = Some ''mobile'', location = Some ''Dhaka'',
      clicked_ad = 1, products_viewed = 1, added_to_cart = 1, purchased = 1,
      purchase_amount = 10 \<rparr>"

definition ev_blank :: event where
  "ev_blank = \<lparr> user_id = Some ''u5'', timestamp = None,
      campaign_id = None, device_type = Some ''mobile'', location = None,
      clicked_ad = 1, products_viewed = 0, added_to_cart = 0, purchased = 0,
      purchase_amount = 0 \<rparr>"

text \<open>Ten rows, four of them with a click, two of them purchases (50 and 30).\<close>

definition ten_rows :: "event list" where
  "ten_rows = [ev_buy50, ev_buy30, ev_click, ev_click,
               ev_cart, ev_cart, ev_cart, ev_cart, ev_cart, ev_cart]"

text \<open>Purchases on two days with a day between them that has no row.\<close>

definition three_buyers :: "event list" where
  "three_buyers = [ev_buy20, ev_buy50, ev_buy30]"

section \<open>Facts about the column operations\<close>

lemmas ev_defs = ev_buy50_def ev_buy30_def ev_click_def ev_cart_def ev_buy20_def
  ev_anon_def ev_blank_def

lemma set_dropna: "set (dropna xs) = {x. Some x \<in> set xs}"
  by (induction xs rule: dropna.induct) auto

lemma groupby_keys: "map fst (groupby key rows) = sort (remdups (dropna (map key rows)))"
  by (simp add: groupby_def comp_def)

lemma groupby_mem:
  "(k, g) \<in> set (groupby key rows) \<longleftrightarrow>
     Some k \<in> key ` set rows \<and> g = filter (\<lambda>r. key r = Some k) rows"
  by (auto simp: groupby_def set_dropna)

lemma group_nonempty:
  "Some k \<in> key ` set rows \<Longrightarrow> filter (\<lambda>r. key r = Some k) rows \<noteq> []"
  by (auto simp: filter_empty_conv)

text \<open>A row with a key lies in the group of its key and in no other.\<close>

lemma groupby_unique_group:
  assumes "r \<in> set rows" and "key r = Some k"
  shows "\<exists>!kg. kg \<in> set (groupby key rows) \<and> r \<in> set (snd kg)"
proof
  show "(k, filter (\<lambda>x. key x = Some k) rows) \<in> set (groupby key rows)
        \<and> r \<in> set (snd (k, filter (\<lambda>x. key x = Some k) rows))"
    using assms by (force simp: groupby_mem)
next
  fix kg assume kg: "kg \<in> set (groupby key rows) \<and> r \<in> set (snd kg)"
  then have "(fst kg, snd kg) \<in> set (groupby key rows)" by simp
  then have g: "snd kg = filter (\<lambda>x. key x = Some (fst kg)) rows"
    unfolding groupby_mem by blast
  with kg assms(2) have "k = fst kg" by simp
  with g show "kg = (k, filter (\<lambda>x. key x = Some k) rows)"
    by (simp add: prod_eq_iff)
qed

text \<open>A row whose key is missing lies in no group.\<close>

lemma groupby_no_group:
  assumes "key r = None" and "kg \<in> set (groupby key rows)"
  shows "r \<notin> set (snd kg)"
proof -
  from assms(2) have "(fst kg, snd kg) \<in> set (groupby key rows)" by simp
  then have "snd kg = filter (\<lambda>x. key x = Some (fst kg)) rows"
    unfolding groupby_mem by blast
  with assms(1) show ?thesis by simp
qed

text \<open>
  Counting the rows with a property group by group counts each row that has a key once.
\<close>

lemma sum_group_counts:
  "finite K \<Longrightarrow> {k. Some k \<in> key ` set rows} \<subseteq> K \<Longrightarrow>
     (\<Sum>k\<in>K. length (filter P (filter (\<lambda>r. key r = Some k) rows)))
       = length (filter (\<lambda>r. key r \<noteq> None \<and> P r) rows)"
proof (induction rows)
  case Nil
  then show ?case by simp
next
  case (Cons x xs)
  let ?c = "\<lambda>ys k. length (filter P (filter (\<lambda>r. key r = Some k) ys))"
  have sub: "{k. Some k \<in> key ` set xs} \<subseteq> K"
    using Cons.prems(2) by auto
  have ih: "(\<Sum>k\<in>K. ?c xs k) = length (filter (\<lambda>r. key r \<noteq> None \<and> P r) xs)"
    using Cons.IH [OF Cons.prems(1) sub] .
  have split: "(\<Sum>k\<in>K. ?c (x # xs) k)
        = (\<Sum>k\<in>K. if key x = Some k \<and> P x then 1 else 0) + (\<Sum>k\<in>K. ?c xs k)"
    unfolding sum.distrib [symmetric] by (rule sum.cong) auto
  show ?case
  proof (cases "key x")
    case None
    then have "(\<Sum>k\<in>K. if key x = Some k \<and> P x then 1 else (0::nat)) = 0" by simp
    with split ih None show ?thesis by simp
  next
    case (Some k0)
    then have "k0 \<in> K" using Cons.prems(2) by auto
    have "(\<Sum>k\<in>K. if key x = Some k \<and> P x then 1 else (0::nat))
          = (\<Sum>k\<in>K. if k0 = k then (if P x then 1 else 0) else 0)"
      by (rule sum.cong) (auto simp: Some)
    also have "\<dots> = (if P x then 1 else 0)"
      using Cons.prems(1) \<open>k0 \<in> K\<close> by simp
    finally show ?thesis using split ih Some by simp
  qed
qed

lemma groupby_counts:
  "sum_list (map (\<lambda>kg. length (filter P (snd kg))) (groupby key rows))
     = length (filter (\<lambda>r. key r \<noteq> None \<and> P r) rows)"
proof -
  let ?ks = "sort (remdups (dropna (map key rows)))"
  have "sum_list (map (\<lambda>kg. length (filter P (snd kg))) (groupby key rows))
        = sum_list (map (\<lambda>k. length (filter P (filter (\<lambda>r. key r = Some k) rows))) ?ks)"
    by (simp add: groupby_def comp_def)
  also have "\<dots> = (\<Sum>k\<in>set ?ks. length (filter P (filter (\<lambda>r. key r = Some k) rows)))"
    by (rule sum_list_distinct_conv_sum_set) simp
  also have "\<dots> = length (filter (\<lambda>r. key r \<noteq> None \<and> P r) rows)"
  proof (rule sum_group_counts)
    show "finite (set ?ks)" by (rule finite_set)
    show "{k. Some k \<in> key ` set rows} \<subseteq> set ?ks" by (simp add: set_dropna)
  qed
  finally show ?thesis .
qed

lemma length_filter_eq_iff: "length (filter P xs) = length xs \<longleftrightarrow> (\<forall>x \<in> set xs. P x)"
proof
  assume "length (filter P xs) = length xs"
  then have "filter P xs = xs"
    by (metis length_filter_less less_irrefl filter_True)
  then show "\<forall>x \<in> set xs. P x"
    by (metis filter_id_conv)
qed simp

text \<open>When is a quotient of two counts, times 100, a finite number.\<close>

lemma pct_finite: "is_finite (fmul (fdiv (of_nat a) (of_nat b)) 100) \<longleftrightarrow> b \<noteq> 0"
  by (simp add: fdiv_def)

lemma pct_value: "b \<noteq> 0 \<Longrightarrow> fmul (fdiv (of_nat a) (of_nat b)) 100 = Fin (100 * of_nat a / of_nat b)"
  by (simp add: fdiv_def)

section \<open>Key performance indicators\<close>

text \<open>
  C1. For every table, \<open>total_users\<close> is the number of rows; \<open>ctr\<close> is 100 times the sum
  of \<open>clicked_ad\<close> over \<open>total_users\<close>, and 0 when there is no row; \<open>conversion_rate\<close> is
  100 times the sum of \<open>purchased\<close> over \<open>total_users\<close>, and 0 when there is no row;
  \<open>aov\<close> is the sum of \<open>purchase_amount\<close> over the sum of \<open>purchased\<close>, and 0 when that
  sum is 0. None of the three is NaN or an infinity.
\<close>

theorem kpis_formulas:
  "total_users (kpis df) = length df
   \<and> ctr (kpis df) =
       (if total_users (kpis df) = 0 then Fin 0
        else Fin (100 * of_nat (sum_list (map clicked_ad df)) / of_nat (total_users (kpis df))))
   \<and> conversion_rate (kpis df) =
       (if total_users (kpis df) = 0 then Fin 0
        else Fin (100 * of_nat (sum_list (map purchased df)) / of_nat (total_users (kpis df))))
   \<and> aov (kpis df) =
       (if sum_list (map purchased df) = 0 then Fin 0
        else Fin (sum_list (map purchase_amount df) / of_nat (sum_list (map purchased df))))
   \<and> is_finite (ctr (kpis df)) \<and> is_finite (conversion_rate (kpis df))
   \<and> is_finite (aov (kpis df))"
proof -
  let ?p = "sum_list (map purchased df)"
  have a: "aov (kpis df) =
      (if ?p = 0 then Fin 0 else Fin (sum_list (map purchase_amount df) / of_nat ?p))"
    by (cases "?p = 0")
       (simp_all add: kpis_def Let_def col_sum_def fdiv_def del: sum_list_eq_0_iff)
  have n: "total_users (kpis df) = length df"
    by (simp add: kpis_def Let_def)
  have c: "ctr (kpis df) = (if length df = 0 then Fin 0
        else Fin (100 * of_nat (sum_list (map clicked_ad df)) / of_nat (length df)))"
    by (simp add: kpis_def Let_def col_sum_def fdiv_def)
  have v: "conversion_rate (kpis df) = (if length df = 0 then Fin 0
        else Fin (100 * of_nat ?p / of_nat (length df)))"
    by (simp add: kpis_def Let_def col_sum_def fdiv_def)
  have "is_finite (ctr (kpis df))" "is_finite (conversion_rate (kpis df))"
    "is_finite (aov (kpis df))"
    unfolding a c v by (simp_all del: sum_list_eq_0_iff)
  with a n c v show ?thesis by (simp del: sum_list_eq_0_iff)
qed

text \<open>Ten rows, four clicks, purchases of 50 and 30: 10 users, 40 %, 20 %, 40.\<close>

theorem kpis_formulas_witness:
  "total_users (kpis ten_rows) = 10 \<and> ctr (kpis ten_rows) = Fin 40
   \<and> conversion_rate (kpis ten_rows) = Fin 20 \<and> aov (kpis ten_rows) = Fin 40"
  using kpis_formulas [of ten_rows]
  by (simp add: ten_rows_def ev_defs)

section \<open>Per-campaign table\<close>

lemma campaign_perf_mem:
  "row \<in> set (campaign_perf df) \<longleftrightarrow>
     (\<exists>k. Some k \<in> campaign_id ` set df
          \<and> row = campaign_agg (k, filter (\<lambda>r. campaign_id r = Some k) df))"
  by (auto simp: campaign_perf_def groupby_def set_dropna)

lemma campaign_perf_keys:
  "map cp_campaign_id (campaign_perf df) = sort (remdups (dropna (map campaign_id df)))"
proof -
  have "map cp_campaign_id (campaign_perf df) = map fst (groupby campaign_id df)"
    by (simp add: campaign_perf_def campaign_agg_def Let_def comp_def)
  then show ?thesis by (simp add: groupby_keys)
qed

text \<open>The row that a group yields, field by field.\<close>

lemma campaign_agg_fields:
  shows "cp_campaign_id (campaign_agg (k, g)) = k"
    and "users (campaign_agg (k, g)) = length (filter (\<lambda>r. user_id r \<noteq> None) g)"
    and "clicks (campaign_agg (k, g)) = sum_list (map clicked_ad g)"
    and "purchases (campaign_agg (k, g)) = sum_list (map purchased g)"
    and "revenue (campaign_agg (k, g)) = sum_list (map purchase_amount g)"
    and "ctr_pct (campaign_agg (k, g)) =
           fmul (fdiv (of_nat (clicks (campaign_agg (k, g))))
                      (of_nat (users (campaign_agg (k, g))))) 100"
    and "conversion_rate_pct (campaign_agg (k, g)) =
           fmul (fdiv (of_nat (purchases (campaign_agg (k, g))))
                      (of_nat (users (campaign_agg (k, g))))) 100"
    and "campaign_aov (campaign_agg (k, g)) =
           Fin (sum_list (map purchase_amount g) / of_nat (max (sum_list (map purchased g)) 1))"
proof -
  have m: "replace_val 0 1 p = max p 1" for p
    by (simp add: replace_val_def max_def)
  show "cp_campaign_id (campaign_agg (k, g)) = k"
    "users (campaign_agg (k, g)) = length (filter (\<lambda>r. user_id r \<noteq> None) g)"
    "clicks (campaign_agg (k, g)) = sum_list (map clicked_ad g)"
    "purchases (campaign_agg (k, g)) = sum_list (map purchased g)"
    "revenue (campaign_agg (k, g)) = sum_list (map purchase_amount g)"
    "ctr_pct (campaign_agg (k, g)) =
           fmul (fdiv (of_nat (clicks (campaign_agg (k, g))))
                      (of_nat (users (campaign_agg (k, g))))) 100"
    "conversion_rate_pct (campaign_agg (k, g)) =
           fmul (fdiv (of_nat (purchases (campaign_agg (k, g))))
                      (of_nat (users (campaign_agg (k, g))))) 100"
    by (simp_all add: campaign_agg_def Let_def col_count_def col_sum_def)
  show "campaign_aov (campaign_agg (k, g)) =
           Fin (sum_list (map purchase_amount g) / of_nat (max (sum_list (map purchased g)) 1))"
    unfolding campaign_agg_def Let_def col_sum_def m
    by (simp add: fdiv_def del: sum_list_eq_0_iff max_nat.eq_neutr_iff)
qed

lemma groupby_ten_rows:
  "groupby campaign_id ten_rows =
     [(''C1'', [ev_buy50, ev_click, ev_click]), (''C2'', [ev_buy30]),
      (''C3'', [ev_cart, ev_cart, ev_cart, ev_cart, ev_cart, ev_cart])]"
  by (simp add: groupby_def ev_defs ten_rows_def)

lemma campaign_perf_ten_rows:
  "campaign_perf ten_rows =
    [\<lparr>cp_campaign_id = ''C1'', users = 3, clicks = 3, purchases = 1, revenue = 50,
        ctr_pct = Fin 100, conversion_rate_pct = Fin (100 / 3), campaign_aov = Fin 50\<rparr>,
     \<lparr>cp_campaign_id = ''C2'', users = 1, clicks = 1, purchases = 1, revenue = 30,
        ctr_pct = Fin 100, conversion_rate_pct = Fin 100, campaign_aov = Fin 30\<rparr>,
     \<lparr>cp_campaign_id = ''C3'', users = 6, clicks = 0, purchases = 0, revenue = 0,
        ctr_pct = Fin 0, conversion_rate_pct = Fin 0, campaign_aov = Fin 0\<rparr>]"
  unfolding campaign_perf_def groupby_ten_rows
  by (simp add: campaign_agg_def col_count_def col_sum_def fdiv_def replace_val_def ev_defs)

lemma ten_rows_user_ids: "\<forall>r \<in> set ten_rows. campaign_id r \<noteq> None \<and> user_id r \<noteq> None"
  by (simp add: ten_rows_def ev_defs)

text \<open>The table of one row whose \<^verbatim>\<open>user_id\<close> is blank, and of one whose campaign is blank.\<close>

lemma campaign_perf_anon:
  "campaign_perf [ev_anon] =
    [\<lparr>cp_campaign_id = ''C4'', users = 0, clicks = 1, purchases = 1, revenue = 10,
        ctr_pct = PosInf, conversion_rate_pct = PosInf, campaign_aov = Fin 10\<rparr>]"
  by (simp add: campaign_perf_def groupby_def campaign_agg_def col_count_def col_sum_def
      fdiv_def replace_val_def ev_defs)

lemma campaign_perf_blank: "campaign_perf [ev_blank] = []"
  by (simp add: campaign_perf_def groupby_def ev_defs)

text \<open>
  C2, as the claim states it, fails: the table of the one row \<open>ev_anon\<close> has one campaign
  group, which has one row, and its \<open>users\<close> is 0, not 1; its \<open>ctr_pct\<close> is not
  100 clicks / users but an infinity.
\<close>

theorem campaign_perf_rows_counterexample:
  "snd (groupby campaign_id [ev_anon] ! 0) = [ev_anon]
   \<and> length (snd (groupby campaign_id [ev_anon] ! 0)) = 1
   \<and> cp_campaign_id (campaign_perf [ev_anon] ! 0) = ''C4''
   \<and> users (campaign_perf [ev_anon] ! 0) = 0
   \<and> clicks (campaign_perf [ev_anon] ! 0) = 1
   \<and> ctr_pct (campaign_perf [ev_anon] ! 0) = PosInf
   \<and> conversion_rate_pct (campaign_perf [ev_anon] ! 0) = PosInf"
  by (simp add: campaign_perf_anon) (simp add: groupby_def ev_defs)

text \<open>
  C2, amended. The per-campaign table has one row per distinct campaign that is not
  missing. In the row of a campaign, \<open>users\<close> is the number of rows of that campaign whose
  \<open>user_id\<close> is not missing (the number of rows of the campaign when none is missing),
  \<open>clicks\<close>, \<open>purchases\<close> and \<open>revenue\<close> are the sums of \<open>clicked_ad\<close>, \<open>purchased\<close> and
  \<open>purchase_amount\<close> over the rows of the campaign; where \<open>users\<close> is not 0, \<open>ctr_pct\<close> is
  100 clicks / users and \<open>conversion_rate_pct\<close> is 100 purchases / users; the AOV is
  revenue / max(purchases, 1): with no purchase it is the revenue itself.
\<close>

theorem campaign_perf_rows:
  "map cp_campaign_id (campaign_perf df) = sort (remdups (dropna (map campaign_id df)))
   \<and> (\<forall>row \<in> set (campaign_perf df).
        let g = filter (\<lambda>r. campaign_id r = Some (cp_campaign_id row)) df in
          users row = length (filter (\<lambda>r. user_id r \<noteq> None) g)
          \<and> ((\<forall>r \<in> set g. user_id r \<noteq> None) \<longrightarrow> users row = length g)
          \<and> clicks row = sum_list (map clicked_ad g)
          \<and> purchases row = sum_list (map purchased g)
          \<and> revenue row = sum_list (map purchase_amount g)
          \<and> (users row \<noteq> 0 \<longrightarrow>
               ctr_pct row = Fin (100 * of_nat (clicks row) / of_nat (users row))
               \<and> conversion_rate_pct row = Fin (100 * of_nat (purchases row) / of_nat (users row)))
          \<and> campaign_aov row = Fin (revenue row / of_nat (max (purchases row) 1))
          \<and> (purchases row = 0 \<longrightarrow> campaign_aov row = Fin (revenue row)))"
proof (intro conjI ballI)
  show "map cp_campaign_id (campaign_perf df) = sort (remdups (dropna (map campaign_id df)))"
    by (rule campaign_perf_keys)
next
  fix row assume "row \<in> set (campaign_perf df)"
  then obtain k where row: "row = campaign_agg (k, filter (\<lambda>r. campaign_id r = Some k) df)"
    by (auto simp: campaign_perf_mem)
  let ?g = "filter (\<lambda>r. campaign_id r = Some k) df"
  note f = campaign_agg_fields [of k ?g, folded row]
  have id: "cp_campaign_id row = k" by (rule f(1))
  have u: "(\<forall>r \<in> set ?g. user_id r \<noteq> None) \<longrightarrow> users row = length ?g"
  proof
    assume "\<forall>r \<in> set ?g. user_id r \<noteq> None"
    then have "filter (\<lambda>r. user_id r \<noteq> None) ?g = ?g"
      by (rule filter_True)
    then show "users row = length ?g"
      by (simp only: f(2))
  qed
  have p: "users row \<noteq> 0 \<longrightarrow>
               ctr_pct row = Fin (100 * of_nat (clicks row) / of_nat (users row))
               \<and> conversion_rate_pct row = Fin (100 * of_nat (purchases row) / of_nat (users row))"
    unfolding f(6) f(7) by (simp add: pct_value)
  have a: "campaign_aov row = Fin (revenue row / of_nat (max (purchases row) 1))"
    unfolding f(4) f(5) by (rule f(8))
  have a0: "purchases row = 0 \<longrightarrow> campaign_aov row = Fin (revenue row)"
    unfolding a by simp
  show "let g = filter (\<lambda>r. campaign_id r = Some (cp_campaign_id row)) df in
          users row = length (filter (\<lambda>r. user_id r \<noteq> None) g)
          \<and> ((\<forall>r \<in> set g. user_id r \<noteq> None) \<longrightarrow> users row = length g)
          \<and> clicks row = sum_list (map clicked_ad g)
          \<and> purchases row = sum_list (map purchased g)
          \<and> revenue row = sum_list (map purchase_amount g)
          \<and> (users row \<noteq> 0 \<longrightarrow>
               ctr_pct row = Fin (100 * of_nat (clicks row) / of_nat (users row))
               \<and> conversion_rate_pct row = Fin (100 * of_nat (purchases row) / of_nat (users row)))
          \<and> campaign_aov row = Fin (revenue row / of_nat (max (purchases row) 1))
          \<and> (purchases row = 0 \<longrightarrow> campaign_aov row = Fin (revenue row))"
    unfolding Let_def id
    using f(2) u f(3) f(4) f(5) p a a0 by (intro conjI)
qed

text \<open>
  In the ten rows, where no cell is missing, campaign C3 has six rows, no click and no
  purchase: its AOV is its revenue, 0. Campaign C1 has three rows and one purchase of 50.
\<close>

theorem campaign_perf_rows_witness:
  "map cp_campaign_id (campaign_perf ten_rows) = [''C1'', ''C2'', ''C3'']
   \<and> users (campaign_perf ten_rows ! 2) = 6
   \<and> users (campaign_perf ten_rows ! 2)
       = length (filter (\<lambda>r. campaign_id r = Some ''C3'') ten_rows)
   \<and> purchases (campaign_perf ten_rows ! 2) = 0
   \<and> campaign_aov (campaign_perf ten_rows ! 2) = Fin (revenue (campaign_perf ten_rows ! 2))
   \<and> users (campaign_perf ten_rows ! 0) = 3
   \<and> ctr_pct (campaign_perf ten_rows ! 0) = Fin 100
   \<and> conversion_rate_pct (campaign_perf ten_rows ! 0) = Fin (100 / 3)
   \<and> campaign_aov (campaign_perf ten_rows ! 0) = Fin 50"
proof -
  have in2: "campaign_perf ten_rows ! 2 \<in> set (campaign_perf ten_rows)"
    and in0: "campaign_perf ten_rows ! 0 \<in> set (campaign_perf ten_rows)"
    by (simp_all add: campaign_perf_ten_rows)
  have all: "\<forall>r \<in> set (filter (\<lambda>r. campaign_id r = Some ''C3'') ten_rows). user_id r \<noteq> None"
    using ten_rows_user_ids by simp
  note t = campaign_perf_rows [of ten_rows]
  from t in2 all
  have "users (campaign_perf ten_rows ! 2)
          = length (filter (\<lambda>r. campaign_id r = Some ''C3'') ten_rows)"
    by (simp add: Let_def campaign_perf_ten_rows)
  moreover from t in2 in0 have "users (campaign_perf ten_rows ! 0) \<noteq> 0 \<longrightarrow>
      ctr_pct (campaign_perf ten_rows ! 0)
        = Fin (100 * of_nat (clicks (campaign_perf ten_rows ! 0))
                / of_nat (users (campaign_perf ten_rows ! 0)))"
    by (simp add: Let_def)
  ultimately show ?thesis
    by (simp add: campaign_perf_ten_rows)
qed

text \<open>
  C8, as the claim states it, fails: a row whose campaign is blank is counted in
  \<open>total_users\<close> and lies in no campaign group, and a row whose \<open>user_id\<close> is blank is
  counted in \<open>total_users\<close> and not in the \<open>users\<close> of its group.
\<close>

theorem campaign_users_partition_counterexample:
  "sum_list (map users (campaign_perf [ev_blank])) = 0 \<and> total_users (kpis [ev_blank]) = 1
   \<and> sum_list (map users (campaign_perf [ev_anon])) = 0 \<and> total_users (kpis [ev_anon]) = 1"
  by (simp add: campaign_perf_anon campaign_perf_blank kpis_def Let_def)

text \<open>
  C8, amended. The \<open>users\<close> of the per-campaign rows add up to the number of rows of the
  table that have both a campaign and a \<open>user_id\<close>. The sum is at most \<open>total_users\<close>, and
  it equals \<open>total_users\<close> exactly when no row of the table misses its campaign or its
  \<open>user_id\<close>. A row that has a campaign lies in exactly one campaign group, a row
  without one in none.
\<close>

theorem campaign_users_partition:
  "sum_list (map users (campaign_perf df))
     = length (filter (\<lambda>r. campaign_id r \<noteq> None \<and> user_id r \<noteq> None) df)
   \<and> sum_list (map users (campaign_perf df)) \<le> total_users (kpis df)
   \<and> (sum_list (map users (campaign_perf df)) = total_users (kpis df)
        \<longleftrightarrow> (\<forall>r \<in> set df. campaign_id r \<noteq> None \<and> user_id r \<noteq> None))
   \<and> (\<forall>r \<in> set df. campaign_id r \<noteq> None \<longrightarrow>
          (\<exists>!kg. kg \<in> set (groupby campaign_id df) \<and> r \<in> set (snd kg)))
   \<and> (\<forall>r \<in> set df. campaign_id r = None \<longrightarrow>
          (\<forall>kg \<in> set (groupby campaign_id df). r \<notin> set (snd kg)))"
proof -
  let ?P = "\<lambda>r. campaign_id r \<noteq> None \<and> user_id r \<noteq> None"
  have "map users (campaign_perf df)
        = map (\<lambda>kg. length (filter (\<lambda>r. user_id r \<noteq> None) (snd kg))) (groupby campaign_id df)"
    by (simp add: campaign_perf_def campaign_agg_def Let_def col_count_def comp_def)
  then have 1: "sum_list (map users (campaign_perf df)) = length (filter ?P df)"
    by (simp add: groupby_counts)
  have n: "total_users (kpis df) = length df"
    by (simp add: kpis_def Let_def)
  have 2: "sum_list (map users (campaign_perf df)) \<le> total_users (kpis df)"
    unfolding 1 n by (rule length_filter_le)
  have 3: "sum_list (map users (campaign_perf df)) = total_users (kpis df)
        \<longleftrightarrow> (\<forall>r \<in> set df. ?P r)"
    unfolding 1 n by (rule length_filter_eq_iff)
  have 4: "\<exists>!kg. kg \<in> set (groupby campaign_id df) \<and> r \<in> set (snd kg)"
    if "r \<in> set df" "campaign_id r \<noteq> None" for r
  proof -
    from that(2) obtain k where "campaign_id r = Some k" by blast
    with that(1) show ?thesis by (rule groupby_unique_group)
  qed
  have 5: "r \<notin> set (snd kg)"
    if "campaign_id r = None" "kg \<in> set (groupby campaign_id df)" for r kg
    using that by (rule groupby_no_group)
  from 1 2 3 4 5 show ?thesis by blast
qed

text \<open>In the ten rows, where no cell is missing, the campaigns have 3, 1 and 6 users.\<close>

theorem campaign_users_partition_witness:
  "map users (campaign_perf ten_rows) = [3, 1, 6]
   \<and> sum_list (map users (campaign_perf ten_rows)) = 10
   \<and> total_users (kpis ten_rows) = 10
   \<and> ev_buy30 \<in> set ten_rows \<and> campaign_id ev_buy30 \<noteq> None
   \<and> (\<exists>!kg. kg \<in> set (groupby campaign_id ten_rows) \<and> ev_buy30 \<in> set (snd kg))"
proof -
  have r: "ev_buy30 \<in> set ten_rows" "campaign_id ev_buy30 \<noteq> None"
    by (simp_all add: ten_rows_def ev_defs)
  note t = campaign_users_partition [of ten_rows]
  from t r have u: "\<exists>!kg. kg \<in> set (groupby campaign_id ten_rows) \<and> ev_buy30 \<in> set (snd kg)"
    by blast
  from t ten_rows_user_ids
  have "sum_list (map users (campaign_perf ten_rows)) = total_users (kpis ten_rows)"
    by blast
  with r u show ?thesis
    by (simp add: campaign_perf_ten_rows)
qed

text \<open>
  C10, as the claim states it, fails: the one campaign group of the table \<open>[ev_anon]\<close>
  holds a row, and its \<open>users\<close> is 0; both percentages are quotients by zero.
\<close>

theorem campaign_users_positive_counterexample:
  "snd (groupby campaign_id [ev_anon] ! 0) = [ev_anon]
   \<and> users (campaign_perf [ev_anon] ! 0) = 0
   \<and> \<not> is_finite (ctr_pct (campaign_perf [ev_anon] ! 0))
   \<and> \<not> is_finite (conversion_rate_pct (campaign_perf [ev_anon] ! 0))"
  by (simp add: campaign_perf_anon) (simp add: groupby_def ev_defs)

text \<open>
  C10, amended. Every group of the per-campaign table holds a row of the table. \<open>users\<close>
  is at least 1 exactly in the rows of the result whose group has a row with a
  \<open>user_id\<close>, and there the two percentages are quotients by a non-zero number: neither
  is NaN or an infinity. In a table where no \<open>user_id\<close> is missing this holds for every
  row of the result.
\<close>

theorem campaign_users_positive:
  "(\<forall>kg \<in> set (groupby campaign_id df). snd kg \<noteq> [])
   \<and> (\<forall>row \<in> set (campaign_perf df).
        (\<exists>r \<in> set df. campaign_id r = Some (cp_campaign_id row))
        \<and> (1 \<le> users row \<longleftrightarrow>
             (\<exists>r \<in> set df. campaign_id r = Some (cp_campaign_id row) \<and> user_id r \<noteq> None))
        \<and> (1 \<le> users row \<longrightarrow>
             is_finite (ctr_pct row) \<and> is_finite (conversion_rate_pct row)))
   \<and> ((\<forall>r \<in> set df. user_id r \<noteq> None) \<longrightarrow>
        (\<forall>row \<in> set (campaign_perf df).
           1 \<le> users row \<and> is_finite (ctr_pct row) \<and> is_finite (conversion_rate_pct row)))"
proof -
  have 1: "snd kg \<noteq> []" if "kg \<in> set (groupby campaign_id df)" for kg
  proof -
    from that have "(fst kg, snd kg) \<in> set (groupby campaign_id df)" by simp
    then have "Some (fst kg) \<in> campaign_id ` set df"
      and "snd kg = filter (\<lambda>r. campaign_id r = Some (fst kg)) df"
      unfolding groupby_mem by blast+
    then show ?thesis by (simp add: group_nonempty)
  qed
  have 2: "(\<exists>r \<in> set df. campaign_id r = Some (cp_campaign_id row))
        \<and> (1 \<le> users row \<longleftrightarrow>
             (\<exists>r \<in> set df. campaign_id r = Some (cp_campaign_id row) \<and> user_id r \<noteq> None))
        \<and> (1 \<le> users row \<longrightarrow>
             is_finite (ctr_pct row) \<and> is_finite (conversion_rate_pct row))"
    if "row \<in> set (campaign_perf df)" for row
  proof -
    from that obtain k where k: "Some k \<in> campaign_id ` set df"
      and row: "row = campaign_agg (k, filter (\<lambda>r. campaign_id r = Some k) df)"
      by (auto simp: campaign_perf_mem)
    let ?g = "filter (\<lambda>r. campaign_id r = Some k) df"
    note f = campaign_agg_fields [of k ?g, folded row]
    have a: "\<exists>r \<in> set df. campaign_id r = Some (cp_campaign_id row)"
      using k unfolding f(1) by force
    have "1 \<le> users row \<longleftrightarrow> filter (\<lambda>r. user_id r \<noteq> None) ?g \<noteq> []"
      unfolding f(2) by (simp add: Suc_le_eq)
    also have "\<dots> \<longleftrightarrow> (\<exists>r \<in> set df. campaign_id r = Some k \<and> user_id r \<noteq> None)"
      by (auto simp: filter_empty_conv)
    finally have b: "1 \<le> users row \<longleftrightarrow>
        (\<exists>r \<in> set df. campaign_id r = Some (cp_campaign_id row) \<and> user_id r \<noteq> None)"
      unfolding f(1) .
    have c: "1 \<le> users row \<longrightarrow> is_finite (ctr_pct row) \<and> is_finite (conversion_rate_pct row)"
      unfolding f(6) f(7) pct_finite by simp
    from a b c show ?thesis by (intro conjI)
  qed
  have 3: "1 \<le> users row \<and> is_finite (ctr_pct row) \<and> is_finite (conversion_rate_pct row)"
    if all: "\<forall>r \<in> set df. user_id r \<noteq> None" and row: "row \<in> set (campaign_perf df)" for row
  proof -
    from 2 [OF row] all have "1 \<le> users row" by blast
    with 2 [OF row] show ?thesis by blast
  qed
  from 1 2 3 show ?thesis by blast
qed

theorem campaign_users_positive_witness:
  "snd (groupby campaign_id ten_rows ! 1) \<noteq> []
   \<and> 1 \<le> users (campaign_perf ten_rows ! 1)
   \<and> is_finite (ctr_pct (campaign_perf ten_rows ! 1))
   \<and> is_finite (conversion_rate_pct (campaign_perf ten_rows ! 1))"
proof -
  have g: "groupby campaign_id ten_rows ! 1 \<in> set (groupby campaign_id ten_rows)"
    by (simp add: groupby_ten_rows)
  have r: "campaign_perf ten_rows ! 1 \<in> set (campaign_perf ten_rows)"
    by (simp add: campaign_perf_ten_rows)
  have u: "\<forall>r \<in> set ten_rows. user_id r \<noteq> None"
    using ten_rows_user_ids by blast
  from campaign_users_positive [of ten_rows] g r u show ?thesis by blast
qed

section \<open>Sidebar filters\<close>

text \<open>
  C3. The filter keeps exactly the rows whose campaign, device type and location are each
  among the selected values of their dimension, in table order and as often as they
  occur; with an empty selection in any of the three dimensions it keeps no row.
\<close>

theorem filter_stage_exact:
  "filter_stage df campaign device loc =
     filter (\<lambda>r. campaign_id r \<in> set campaign \<and> device_type r \<in> set device
                 \<and> location r \<in> set loc) df
   \<and> set (filter_stage df campaign device loc) =
       {r \<in> set df. campaign_id r \<in> set campaign \<and> device_type r \<in> set device
                     \<and> location r \<in> set loc}
   \<and> (\<forall>r. count_list (filter_stage df campaign device loc) r =
          (if campaign_id r \<in> set campaign \<and> device_type r \<in> set device
              \<and> location r \<in> set loc
           then count_list df r else 0))
   \<and> filter_stage df [] device loc = []
   \<and> filter_stage df campaign [] loc = []
   \<and> filter_stage df campaign device [] = []"
proof -
  let ?P = "\<lambda>r. campaign_id r \<in> set campaign \<and> device_type r \<in> set device
                 \<and> location r \<in> set loc"
  have f: "filter_stage df campaign device loc = filter ?P df"
    by (simp add: filter_stage_def isin_def)
  have c: "count_list (filter ?P df) r = (if ?P r then count_list df r else 0)" for r
    by (induction df) auto
  have s: "set (filter ?P df) = {r \<in> set df. ?P r}"
    by (rule set_filter)
  have e: "filter_stage df [] device loc = []" "filter_stage df campaign [] loc = []"
    "filter_stage df campaign device [] = []"
    by (simp_all add: filter_stage_def isin_def)
  show ?thesis
    unfolding f using c s e by blast
qed

text \<open>
  Of the ten rows, the selection of campaigns C1 and C3 on mobile devices in Dhaka or
  Khulna keeps the buyer of 50 and the two visitors who clicked.
\<close>

theorem filter_stage_exact_witness:
  "filter_stage ten_rows [Some ''C1'', Some ''C3''] [Some ''mobile'']
       [Some ''Dhaka'', Some ''Khulna'']
     = [ev_buy50, ev_click, ev_click]
   \<and> count_list (filter_stage ten_rows [Some ''C1'', Some ''C3''] [Some ''mobile'']
                    [Some ''Dhaka'', Some ''Khulna'']) ev_click = 2
   \<and> count_list (filter_stage ten_rows [Some ''C1'', Some ''C3''] [Some ''mobile'']
                    [Some ''Dhaka'', Some ''Khulna'']) ev_cart = 0
   \<and> filter_stage ten_rows [Some ''C1'', Some ''C3''] [] [Some ''Dhaka'', Some ''Khulna''] = []"
  using filter_stage_exact [of ten_rows "[Some ''C1'', Some ''C3'']" "[Some ''mobile'']"
      "[Some ''Dhaka'', Some ''Khulna'']"]
  by (simp add: ten_rows_def ev_defs)

section \<open>Funnel\<close>

text \<open>
  C4. The funnel is the four pairs Clicked Ad, Viewed Product, Added to Cart, Purchased,
  in this order: the sum of \<open>clicked_ad\<close>, the number of rows with \<open>products_viewed\<close>
  above 0, the number of rows with \<open>added_to_cart\<close> above 0, and the sum of \<open>purchased\<close>.
\<close>

theorem funnel_stages:
  "length (funnel df) = 4
   \<and> map fst (funnel df) = [''Clicked Ad'', ''Viewed Product'', ''Added to Cart'', ''Purchased'']
   \<and> map snd (funnel df) =
       [sum_list (map clicked_ad df),
        card {i. i < length df \<and> 0 < products_viewed (df ! i)},
        card {i. i < length df \<and> 0 < added_to_cart (df ! i)},
        sum_list (map purchased df)]"
  by (simp add: funnel_def col_sum_def count_positive_def length_filter_conv_card)

theorem funnel_stages_witness:
  "funnel ten_rows =
     [(''Clicked Ad'', 4), (''Viewed Product'', 4), (''Added to Cart'', 8), (''Purchased'', 2)]"
proof -
  have v: "count_positive products_viewed ten_rows = 4"
    and c: "count_positive added_to_cart ten_rows = 8"
    by (simp_all add: count_positive_def ten_rows_def ev_defs)
  have "map snd (funnel ten_rows) = [4, 4, 8, 2]"
    using funnel_stages [of ten_rows] v c
    by (simp add: funnel_def col_sum_def ten_rows_def ev_defs)
  then show ?thesis
    by (simp add: funnel_def)
qed

text \<open>
  C5. The stages are counted independently of each other: there is a table in which a
  later stage has more users than an earlier one. One row without a click and with an
  item in the cart gives Added to Cart = 1 and Clicked Ad = 0.
\<close>

theorem funnel_not_monotone:
  "(\<exists>df i j. i < j \<and> j < length (funnel df) \<and> snd (funnel df ! i) < snd (funnel df ! j))
   \<and> (\<forall>r. clicked_ad r = 0 \<and> 0 < added_to_cart r \<longrightarrow>
          funnel [r] ! 0 = (''Clicked Ad'', 0) \<and> funnel [r] ! 2 = (''Added to Cart'', 1))"
proof
  have "(0::nat) < 2 \<and> 2 < length (funnel [ev_cart])
        \<and> snd (funnel [ev_cart] ! 0) < snd (funnel [ev_cart] ! 2)"
    by (simp add: funnel_def col_sum_def count_positive_def ev_cart_def)
  then show "\<exists>df i j. i < j \<and> j < length (funnel df) \<and> snd (funnel df ! i) < snd (funnel df ! j)"
    by blast
next
  show "\<forall>r. clicked_ad r = 0 \<and> 0 < added_to_cart r \<longrightarrow>
          funnel [r] ! 0 = (''Clicked Ad'', 0) \<and> funnel [r] ! 2 = (''Added to Cart'', 1)"
    by (simp add: funnel_def col_sum_def count_positive_def)
qed

theorem funnel_not_monotone_witness:
  "clicked_ad ev_cart = 0 \<and> 0 < added_to_cart ev_cart
   \<and> funnel [ev_cart] ! 0 = (''Clicked Ad'', 0) \<and> funnel [ev_cart] ! 2 = (''Added to Cart'', 1)"
proof -
  have h: "clicked_ad ev_cart = 0 \<and> 0 < added_to_cart ev_cart"
    by (simp add: ev_cart_def)
  with funnel_not_monotone show ?thesis by blast
qed

section \<open>Daily purchases\<close>

lemma daily_alt:
  "daily (Frame df) = Inr
     (map (\<lambda>d. (d, sum_list (map purchased
                     (filter (\<lambda>r. map_option dt_date (timestamp r) = Some d) df))))
       (sort (remdups (dropna (map (\<lambda>r. map_option dt_date (timestamp r)) df)))))"
  by (simp add: groupby_def col_sum_def comp_def date_col_def [abs_def])

lemma daily_three_buyers:
  "daily (Frame three_buyers) = Inr [((2024, 1, 1), 2), ((2024, 1, 3), 1)]"
  unfolding daily_alt by (simp add: three_buyers_def ev_defs dt_date_def)

text \<open>
  C6. On a frame with data rows, and on every selection of it, the daily series is
  produced; it has one entry for each calendar date that the timestamp of some row of
  the table falls on, and none for any other date; the entries are in ascending date
  order; the entry of a date carries the sum of \<open>purchased\<close> over the rows whose
  timestamp falls on it.
\<close>

theorem daily_series:
  "\<exists>s. daily (Frame df) = Inr s
     \<and> sorted_wrt (<) (map fst s)
     \<and> set (map fst s) = {d. Some d \<in> (\<lambda>r. map_option dt_date (timestamp r)) ` set df}
     \<and> length s = card {d. Some d \<in> (\<lambda>r. map_option dt_date (timestamp r)) ` set df}
     \<and> (\<forall>d. map_of s d =
            (if Some d \<in> (\<lambda>r. map_option dt_date (timestamp r)) ` set df
             then Some (sum_list (map purchased
                          (filter (\<lambda>r. map_option dt_date (timestamp r) = Some d) df)))
             else None))"
proof -
  let ?key = "\<lambda>r. map_option dt_date (timestamp r)"
  let ?ks = "sort (remdups (dropna (map ?key df)))"
  let ?f = "\<lambda>d. sum_list (map purchased (filter (\<lambda>r. ?key r = Some d) df))"
  let ?s = "map (\<lambda>d. (d, ?f d)) ?ks"
  have d: "daily (Frame df) = Inr ?s"
    by (rule daily_alt)
  have k: "map fst ?s = ?ks"
    by (simp add: comp_def)
  have ks: "set ?ks = {d. Some d \<in> ?key ` set df}"
    by (simp add: set_dropna)
  have 1: "sorted_wrt (<) (map fst ?s)"
    unfolding k by (simp add: strict_sorted_iff)
  have 2: "set (map fst ?s) = {d. Some d \<in> ?key ` set df}"
    unfolding k by (rule ks)
  have "length ?s = length (remdups (dropna (map ?key df)))"
    by simp
  also have "\<dots> = card (set (dropna (map ?key df)))"
    by (rule length_remdups_card_conv)
  finally have 3: "length ?s = card {d. Some d \<in> ?key ` set df}"
    by (simp add: set_dropna)
  have 4: "map_of ?s x = (if Some x \<in> ?key ` set df then Some (?f x) else None)" for x
  proof -
    have "map_of ?s x = (if x \<in> set ?ks then Some (?f x) else None)"
      unfolding map_of_map_restrict by (simp add: restrict_map_def)
    then show ?thesis
      unfolding ks by simp
  qed
  from d 1 2 3 4 show ?thesis by blast
qed

text \<open>
  Two purchases on 1 January and one on 3 January, no row on 2 January: two entries,
  and none for 2 January.
\<close>

theorem daily_series_witness:
  "daily (Frame three_buyers) = Inr [((2024, 1, 1), 2), ((2024, 1, 3), 1)]
   \<and> card {d. Some d \<in> (\<lambda>r. map_option dt_date (timestamp r)) ` set three_buyers} = 2
   \<and> map_of ([((2024, 1, 1), 2), ((2024, 1, 3), 1)] :: (date \<times> nat) list) (2024, 1, 2) = None"
proof -
  from daily_series [of three_buyers] obtain s where
    s: "daily (Frame three_buyers) = Inr s"
    and n: "length s = card {d. Some d \<in> (\<lambda>r. map_option dt_date (timestamp r)) ` set three_buyers}"
    by blast
  from s have "s = [((2024, 1, 1), 2), ((2024, 1, 3), 1)]"
    by (simp add: daily_three_buyers del: daily.simps)
  with n show ?thesis
    by (simp add: daily_three_buyers del: daily.simps)
qed

section \<open>Top locations\<close>

lemma loc_rollup_mem:
  "row \<in> set (loc_rollup df) \<longleftrightarrow>
     (\<exists>k. Some k \<in> location ` set df
          \<and> row = location_agg (k, filter (\<lambda>r. location r = Some k) df))"
  by (auto simp: loc_rollup_def groupby_def set_dropna)

lemma loc_rollup_keys:
  "map loc_location (loc_rollup df) = sort (remdups (dropna (map location df)))"
proof -
  have "map loc_location (loc_rollup df) = map fst (groupby location df)"
    by (simp add: loc_rollup_def location_agg_def Let_def comp_def)
  then show ?thesis by (simp add: groupby_keys)
qed

lemma location_agg_fields:
  shows "loc_location (location_agg (k, g)) = k"
    and "loc_users (location_agg (k, g)) = length (filter (\<lambda>r. user_id r \<noteq> None) g)"
    and "loc_purchases (location_agg (k, g)) = sum_list (map purchased g)"
    and "loc_conversion_rate_pct (location_agg (k, g)) =
           fmul (fdiv (of_nat (loc_purchases (location_agg (k, g))))
                      (of_nat (loc_users (location_agg (k, g))))) 100"
  by (simp_all add: location_agg_def Let_def col_count_def col_sum_def)

text \<open>Each row of the table before the sort: its group and its fields.\<close>

lemma loc_rollup_row:
  assumes "row \<in> set (loc_rollup df)"
  shows "Some (loc_location row) \<in> location ` set df"
    and "loc_users row = length (filter (\<lambda>r. user_id r \<noteq> None)
                                   (filter (\<lambda>r. location r = Some (loc_location row)) df))"
    and "loc_purchases row =
           sum_list (map purchased (filter (\<lambda>r. location r = Some (loc_location row)) df))"
    and "loc_users row \<noteq> 0 \<Longrightarrow> loc_conversion_rate_pct row =
           Fin (100 * of_nat (loc_purchases row) / of_nat (loc_users row))"
proof -
  from assms obtain k where k: "Some k \<in> location ` set df"
    and row: "row = location_agg (k, filter (\<lambda>r. location r = Some k) df)"
    by (auto simp: loc_rollup_mem)
  note f = location_agg_fields [of k "filter (\<lambda>r. location r = Some k) df", folded row]
  show "Some (loc_location row) \<in> location ` set df" using k unfolding f(1) .
  show "loc_users row = length (filter (\<lambda>r. user_id r \<noteq> None)
                                   (filter (\<lambda>r. location r = Some (loc_location row)) df))"
    unfolding f(1) by (rule f(2))
  show "loc_purchases row =
           sum_list (map purchased (filter (\<lambda>r. location r = Some (loc_location row)) df))"
    unfolding f(1) by (rule f(3))
  show "loc_conversion_rate_pct row =
           Fin (100 * of_nat (loc_purchases row) / of_nat (loc_users row))"
    if "loc_users row \<noteq> 0"
    unfolding f(4) using that by (rule pct_value)
qed

lemma desc_key_Fin: "desc_key (Fin x) \<le> desc_key (Fin y) \<longleftrightarrow> y \<le> x"
  by simp

text \<open>
  The sorted table: a rearrangement of the rows; of two rows with users the one with the
  larger rate comes first.
\<close>

lemma sort_values_desc_loc:
  "distinct (sort_values_desc loc_conversion_rate_pct (loc_rollup df))"
  "set (sort_values_desc loc_conversion_rate_pct (loc_rollup df)) = set (loc_rollup df)"
  "length (sort_values_desc loc_conversion_rate_pct (loc_rollup df))
     = card {k. Some k \<in> location ` set df}"
  "sorted_wrt (\<lambda>a b. loc_users a \<noteq> 0 \<and> loc_users b \<noteq> 0 \<longrightarrow>
                  100 * rat_of_nat (loc_purchases b) / rat_of_nat (loc_users b)
                    \<le> 100 * rat_of_nat (loc_purchases a) / rat_of_nat (loc_users a))
     (sort_values_desc loc_conversion_rate_pct (loc_rollup df))"
proof -
  let ?s = "sort_values_desc loc_conversion_rate_pct (loc_rollup df)"
  let ?rate = "\<lambda>a. 100 * rat_of_nat (loc_purchases a) / rat_of_nat (loc_users a)"
  have "distinct (map loc_location (loc_rollup df))"
    unfolding loc_rollup_keys by simp
  then have "distinct (loc_rollup df)"
    by (rule distinct_map [THEN iffD1, THEN conjunct1])
  then show "distinct ?s"
    by (simp add: sort_values_desc_def)
  show s: "set ?s = set (loc_rollup df)"
    by (simp add: sort_values_desc_def)
  have "length ?s = length (map loc_location (loc_rollup df))"
    by (simp add: sort_values_desc_def)
  also have "\<dots> = card (set (dropna (map location df)))"
    unfolding loc_rollup_keys by (simp add: length_remdups_card_conv)
  finally show "length ?s = card {k. Some k \<in> location ` set df}"
    by (simp add: set_dropna)
  have "sorted (map (\<lambda>r. desc_key (loc_conversion_rate_pct r)) ?s)"
    unfolding sort_values_desc_def by (rule sorted_sort_key)
  then have "sorted_wrt (\<lambda>a b. desc_key (loc_conversion_rate_pct a)
                               \<le> desc_key (loc_conversion_rate_pct b)) ?s"
    by (simp add: sorted_map)
  then show "sorted_wrt (\<lambda>a b. loc_users a \<noteq> 0 \<and> loc_users b \<noteq> 0 \<longrightarrow> ?rate b \<le> ?rate a) ?s"
  proof (rule sorted_wrt_mono_rel [rotated])
    fix a b
    assume "a \<in> set ?s" "b \<in> set ?s"
      and le: "desc_key (loc_conversion_rate_pct a) \<le> desc_key (loc_conversion_rate_pct b)"
    then have ab: "a \<in> set (loc_rollup df)" "b \<in> set (loc_rollup df)"
      unfolding s by simp_all
    show "loc_users a \<noteq> 0 \<and> loc_users b \<noteq> 0 \<longrightarrow> ?rate b \<le> ?rate a"
    proof
      assume u: "loc_users a \<noteq> 0 \<and> loc_users b \<noteq> 0"
      then have "loc_conversion_rate_pct a = Fin (?rate a)"
        "loc_conversion_rate_pct b = Fin (?rate b)"
        using ab by (simp_all add: loc_rollup_row(4))
      with le show "?rate b \<le> ?rate a"
        by (simp only: desc_key_Fin)
    qed
  qed
qed

lemma loc_rollup_ten_rows:
  "loc_rollup ten_rows =
     [\<lparr>loc_location = ''Dhaka'', loc_users = 3, loc_purchases = 1,
        loc_conversion_rate_pct = Fin (100 / 3)\<rparr>,
      \<lparr>loc_location = ''Khulna'', loc_users = 6, loc_purchases = 0,
        loc_conversion_rate_pct = Fin 0\<rparr>,
      \<lparr>loc_location = ''Sylhet'', loc_users = 1, loc_purchases = 1,
        loc_conversion_rate_pct = Fin 100\<rparr>]"
proof -
  have "groupby location ten_rows =
     [(''Dhaka'', [ev_buy50, ev_click, ev_click]),
      (''Khulna'', [ev_cart, ev_cart, ev_cart, ev_cart, ev_cart, ev_cart]),
      (''Sylhet'', [ev_buy30])]"
    by (simp add: groupby_def ev_defs ten_rows_def)
  then show ?thesis
    unfolding loc_rollup_def
    by (simp add: location_agg_def col_count_def col_sum_def fdiv_def ev_defs)
qed

lemma top_locations_ten_rows:
  "top_locations 2 ten_rows =
     [\<lparr>loc_location = ''Sylhet'', loc_users = 1, loc_purchases = 1,
        loc_conversion_rate_pct = Fin 100\<rparr>,
      \<lparr>loc_location = ''Dhaka'', loc_users = 3, loc_purchases = 1,
        loc_conversion_rate_pct = Fin (100 / 3)\<rparr>]"
  unfolding top_locations_def loc_rollup_ten_rows sort_values_desc_def
  by (simp add: numeral_2_eq_2)

lemma loc_df_anon:
  "loc_df [ev_anon, ev_blank] =
     [\<lparr>loc_location = ''Dhaka'', loc_users = 0, loc_purchases = 1,
        loc_conversion_rate_pct = PosInf\<rparr>]"
  by (simp add: loc_df_def top_n_def top_locations_def sort_values_desc_def loc_rollup_def
      groupby_def location_agg_def col_count_def col_sum_def fdiv_def ev_defs)

text \<open>
  C7, as the claim states it, fails: in the table of the two rows \<open>ev_anon\<close> and
  \<open>ev_blank\<close> the location Dhaka has one row and its \<open>users\<close> is 0, not 1; its
  \<open>conversion_rate_pct\<close> is not 100 purchases / users but an infinity.
\<close>

theorem top_locations_rollup_counterexample:
  "snd (groupby location [ev_anon, ev_blank] ! 0) = [ev_anon]
   \<and> length (loc_df [ev_anon, ev_blank]) = 1
   \<and> loc_location (loc_df [ev_anon, ev_blank] ! 0) = ''Dhaka''
   \<and> loc_users (loc_df [ev_anon, ev_blank] ! 0) = 0
   \<and> loc_purchases (loc_df [ev_anon, ev_blank] ! 0) = 1
   \<and> loc_conversion_rate_pct (loc_df [ev_anon, ev_blank] ! 0) = PosInf"
  by (simp add: loc_df_anon) (simp add: groupby_def ev_defs)

text \<open>
  C7, amended. Before the cut the location table has one row per distinct location that
  is not missing. The result is that table sorted by \<open>conversion_rate_pct\<close>, of two rows
  with users the one with the larger rate first, cut to its first \<open>n\<close> rows (15 in the
  dashboard): it has min(n, number of distinct locations) rows, so at most that many, and
  no location twice. In each row \<open>users\<close> is the number of rows of the location whose
  \<open>user_id\<close> is not missing (the number of rows of the location when none is missing),
  \<open>purchases\<close> is the sum of \<open>purchased\<close> over the rows of the location and, where
  \<open>users\<close> is not 0, \<open>conversion_rate_pct\<close> is 100 purchases / users. In a table where no
  \<open>user_id\<close> is missing the result is in descending order of 100 purchases / users.
\<close>

theorem top_locations_rollup:
  "loc_df df = top_locations 15 df
   \<and> map loc_location (loc_rollup df) = sort (remdups (dropna (map location df)))
   \<and> (\<exists>s. distinct s \<and> set s = set (loc_rollup df)
          \<and> sorted_wrt (\<lambda>a b. loc_users a \<noteq> 0 \<and> loc_users b \<noteq> 0 \<longrightarrow>
                100 * rat_of_nat (loc_purchases b) / rat_of_nat (loc_users b)
                  \<le> 100 * rat_of_nat (loc_purchases a) / rat_of_nat (loc_users a)) s
          \<and> top_locations n df = take n s)
   \<and> length (top_locations n df) = min n (card {k. Some k \<in> location ` set df})
   \<and> length (top_locations n df) \<le> min n (card {k. Some k \<in> location ` set df})
   \<and> distinct (map loc_location (top_locations n df))
   \<and> (\<forall>row \<in> set (top_locations n df).
         let g = filter (\<lambda>r. location r = Some (loc_location row)) df in
           Some (loc_location row) \<in> location ` set df
           \<and> loc_users row = length (filter (\<lambda>r. user_id r \<noteq> None) g)
           \<and> ((\<forall>r \<in> set g. user_id r \<noteq> None) \<longrightarrow> loc_users row = length g)
           \<and> loc_purchases row = sum_list (map purchased g)
           \<and> (loc_users row \<noteq> 0 \<longrightarrow> loc_conversion_rate_pct row =
                 Fin (100 * rat_of_nat (loc_purchases row) / rat_of_nat (loc_users row))))
   \<and> ((\<forall>r \<in> set df. user_id r \<noteq> None) \<longrightarrow>
         sorted_wrt (\<ge>)
           (map (\<lambda>row. 100 * rat_of_nat (loc_purchases row) / rat_of_nat (loc_users row))
              (top_locations n df))
         \<and> (\<forall>row \<in> set (top_locations n df).
               loc_users row \<noteq> 0
               \<and> loc_conversion_rate_pct row =
                   Fin (100 * rat_of_nat (loc_purchases row) / rat_of_nat (loc_users row))))"
proof -
  let ?s = "sort_values_desc loc_conversion_rate_pct (loc_rollup df)"
  let ?rate = "\<lambda>a. 100 * rat_of_nat (loc_purchases a) / rat_of_nat (loc_users a)"
  let ?R = "\<lambda>a b. loc_users a \<noteq> 0 \<and> loc_users b \<noteq> 0 \<longrightarrow> ?rate b \<le> ?rate a"
  note s = sort_values_desc_loc [of df]
  have t: "top_locations n df = take n ?s"
    by (simp add: top_locations_def)
  have mem: "row \<in> set (loc_rollup df)" if "row \<in> set (top_locations n df)" for row
  proof -
    from that have "row \<in> set ?s"
      unfolding t by (rule in_set_takeD)
    then show ?thesis unfolding s(2) .
  qed
  have 1: "loc_df df = top_locations 15 df"
    by (simp add: loc_df_def top_n_def)
  have 2: "map loc_location (loc_rollup df) = sort (remdups (dropna (map location df)))"
    by (rule loc_rollup_keys)
  have 3: "\<exists>s. distinct s \<and> set s = set (loc_rollup df)
          \<and> sorted_wrt ?R s \<and> top_locations n df = take n s"
    using s(1) s(2) s(4) t by blast
  have 4: "length (top_locations n df) = min n (card {k. Some k \<in> location ` set df})"
    unfolding t by (simp add: s(3) min.commute)
  have "distinct (map loc_location ?s)"
  proof -
    have "distinct (map loc_location (loc_rollup df))"
      unfolding loc_rollup_keys by simp
    then have "inj_on loc_location (set (loc_rollup df))"
      by (simp add: distinct_map)
    with s(1) s(2) show ?thesis
      by (simp add: distinct_map)
  qed
  then have 5: "distinct (map loc_location (top_locations n df))"
    unfolding t take_map [symmetric] by (rule distinct_take)
  have 6: "let g = filter (\<lambda>r. location r = Some (loc_location row)) df in
           Some (loc_location row) \<in> location ` set df
           \<and> loc_users row = length (filter (\<lambda>r. user_id r \<noteq> None) g)
           \<and> ((\<forall>r \<in> set g. user_id r \<noteq> None) \<longrightarrow> loc_users row = length g)
           \<and> loc_purchases row = sum_list (map purchased g)
           \<and> (loc_users row \<noteq> 0 \<longrightarrow> loc_conversion_rate_pct row = Fin (?rate row))"
    if "row \<in> set (top_locations n df)" for row
  proof -
    let ?g = "filter (\<lambda>r. location r = Some (loc_location row)) df"
    note r = mem [OF that]
    note f = loc_rollup_row [OF r]
    have u: "(\<forall>r \<in> set ?g. user_id r \<noteq> None) \<longrightarrow> loc_users row = length ?g"
    proof
      assume "\<forall>r \<in> set ?g. user_id r \<noteq> None"
      then have "filter (\<lambda>r. user_id r \<noteq> None) ?g = ?g"
        by (rule filter_True)
      then show "loc_users row = length ?g"
        by (simp only: f(2))
    qed
    have p: "loc_users row \<noteq> 0 \<longrightarrow> loc_conversion_rate_pct row = Fin (?rate row)"
      using f(4) by blast
    show ?thesis
      unfolding Let_def using f(1) f(2) u f(3) p by (intro conjI)
  qed
  have 7: "sorted_wrt (\<ge>) (map ?rate (top_locations n df))
         \<and> (\<forall>row \<in> set (top_locations n df).
               loc_users row \<noteq> 0 \<and> loc_conversion_rate_pct row = Fin (?rate row))"
    if all: "\<forall>r \<in> set df. user_id r \<noteq> None"
  proof
    have pos: "loc_users row \<noteq> 0" if "row \<in> set (loc_rollup df)" for row
    proof -
      note f = loc_rollup_row [OF that]
      from f(1) obtain r where r: "r \<in> set df" "location r = Some (loc_location row)"
        by force
      with all have "r \<in> set (filter (\<lambda>r. user_id r \<noteq> None)
                       (filter (\<lambda>r. location r = Some (loc_location row)) df))"
        by simp
      then show ?thesis
        unfolding f(2) by (metis length_0_conv empty_iff list.set(1))
    qed
    have "sorted_wrt ?R (take n ?s)"
      using s(4) by (rule sorted_wrt_take)
    then have "sorted_wrt (\<lambda>a b. ?rate b \<le> ?rate a) (take n ?s)"
    proof (rule sorted_wrt_mono_rel [rotated])
      fix a b assume "a \<in> set (take n ?s)" "b \<in> set (take n ?s)" and R: "?R a b"
      then have "a \<in> set (loc_rollup df)" "b \<in> set (loc_rollup df)"
        using s(2) by (auto dest: in_set_takeD)
      with R show "?rate b \<le> ?rate a"
        by (simp add: pos)
    qed
    then show "sorted_wrt (\<ge>) (map ?rate (top_locations n df))"
      unfolding t by (simp add: sorted_wrt_map)
    show "\<forall>row \<in> set (top_locations n df).
               loc_users row \<noteq> 0 \<and> loc_conversion_rate_pct row = Fin (?rate row)"
    proof
      fix row assume "row \<in> set (top_locations n df)"
      then have r: "row \<in> set (loc_rollup df)" by (rule mem)
      from pos [OF r] loc_rollup_row(4) [OF r]
      show "loc_users row \<noteq> 0 \<and> loc_conversion_rate_pct row = Fin (?rate row)"
        by blast
    qed
  qed
  from 1 2 3 4 5 6 7 show ?thesis
    by (intro conjI ballI impI) simp_all
qed

text \<open>
  The ten rows, where no cell is missing, have three locations; the two best are Sylhet
  (one user, one purchase) and Dhaka (three users, one purchase).
\<close>

theorem top_locations_rollup_witness:
  "map loc_location (top_locations 2 ten_rows) = [''Sylhet'', ''Dhaka'']
   \<and> length (top_locations 2 ten_rows) = min 2 (card {k. Some k \<in> location ` set ten_rows})
   \<and> loc_users (top_locations 2 ten_rows ! 1)
       = length (filter (\<lambda>r. user_id r \<noteq> None)
                   (filter (\<lambda>r. location r = Some ''Dhaka'') ten_rows))
   \<and> loc_users (top_locations 2 ten_rows ! 1) \<noteq> 0
   \<and> loc_conversion_rate_pct (top_locations 2 ten_rows ! 1) = Fin (100 / 3)
   \<and> loc_conversion_rate_pct (top_locations 2 ten_rows ! 0) = Fin 100"
proof -
  have r: "top_locations 2 ten_rows ! 1 \<in> set (top_locations 2 ten_rows)"
    by (simp add: top_locations_ten_rows)
  have u: "\<forall>r \<in> set ten_rows. user_id r \<noteq> None"
    using ten_rows_user_ids by blast
  note t = top_locations_rollup [of ten_rows 2]
  from t have "length (top_locations 2 ten_rows)
      = min 2 (card {k. Some k \<in> location ` set ten_rows})"
    by blast
  moreover from t r
  have "let g = filter (\<lambda>r. location r = Some (loc_location (top_locations 2 ten_rows ! 1)))
                  ten_rows
        in loc_users (top_locations 2 ten_rows ! 1) = length (filter (\<lambda>r. user_id r \<noteq> None) g)"
    by (simp add: Let_def)
  moreover from t u r have "loc_users (top_locations 2 ten_rows ! 1) \<noteq> 0"
    by blast
  ultimately show ?thesis
    by (simp add: top_locations_ten_rows)
qed

section \<open>Tables without rows\<close>

text \<open>
  C9, as the claim states it, fails: on the frame read from a file that has no data row
  line 77 raises, so no daily series, no per-campaign table and no location table is
  produced.
\<close>

theorem empty_table_counterexample:
  "rows_of Unparsed = []
   \<and> daily Unparsed = Inl AttributeError
   \<and> shown_tables (dashboard Unparsed) = Inl AttributeError"
  by (simp add: dashboard_def)

text \<open>
  C9, amended. On the selection of no row from a table read from a file with data rows
  every aggregate is computed and is zero or empty: the KPIs are 0, 0, 0, 0; the four
  funnel counts are 0; the daily series, the per-campaign table and the location table
  (before and after the cut) have no entry. An empty selection in any dimension gives
  that table. On every table without rows, also the one read from a file without data
  rows, the KPIs are 0, 0, 0, 0 and the four funnel counts are 0.
\<close>

theorem empty_table:
  "kpis [] = \<lparr> total_users = 0, ctr = Fin 0, conversion_rate = Fin 0, aov = Fin 0 \<rparr>
   \<and> funnel [] = [(''Clicked Ad'', 0), (''Viewed Product'', 0), (''Added to Cart'', 0),
                   (''Purchased'', 0)]
   \<and> daily (Frame []) = Inr []
   \<and> campaign_perf [] = []
   \<and> loc_rollup [] = [] \<and> top_locations n [] = [] \<and> loc_df [] = []
   \<and> dashboard (Frame []) =
       \<lparr> shown_kpis = \<lparr> total_users = 0, ctr = Fin 0, conversion_rate = Fin 0, aov = Fin 0 \<rparr>,
         shown_funnel = [(''Clicked Ad'', 0), (''Viewed Product'', 0), (''Added to Cart'', 0),
                         (''Purchased'', 0)],
         shown_tables = Inr ([], [], []) \<rparr>
   \<and> filter_frame (Frame df) [] device loc = Frame []
   \<and> filter_frame (Frame df) campaign [] loc = Frame []
   \<and> filter_frame (Frame df) campaign device [] = Frame []
   \<and> shown_kpis (dashboard Unparsed)
       = \<lparr> total_users = 0, ctr = Fin 0, conversion_rate = Fin 0, aov = Fin 0 \<rparr>
   \<and> shown_funnel (dashboard Unparsed)
       = [(''Clicked Ad'', 0), (''Viewed Product'', 0), (''Added to Cart'', 0),
          (''Purchased'', 0)]"
  by (simp add: kpis_def funnel_def campaign_perf_def loc_rollup_def top_locations_def
      loc_df_def dashboard_def groupby_def col_sum_def count_positive_def
      sort_values_desc_def filter_stage_def isin_def)

text \<open>Deselecting every campaign in the ten rows leaves the table without rows.\<close>

theorem empty_table_witness:
  "dashboard (filter_frame (Frame ten_rows) [] [Some ''mobile''] [Some ''Dhaka'']) =
       \<lparr> shown_kpis = \<lparr> total_users = 0, ctr = Fin 0, conversion_rate = Fin 0, aov = Fin 0 \<rparr>,
         shown_funnel = [(''Clicked Ad'', 0), (''Viewed Product'', 0), (''Added to Cart'', 0),
                         (''Purchased'', 0)],
         shown_tables = Inr ([], [], []) \<rparr>"
  using empty_table [of 15 ten_rows "[Some ''mobile'']" "[Some ''Dhaka'']" "[]"]
  by (simp del: filter_frame.simps daily.simps)

end
